theory Spec2Isabelle
  imports
    Main
    "HOL-Library.Char_ord"
    "HOL-Library.List_Lexorder"
    "HOL-Library.Multiset"
begin

section \<open>Python strings\<close>

text \<open>
  A Python \<open>str\<close> is modelled as a \<^typ>\<open>string\<close>. The text handled by the dashboard
  (container names, image references, port columns of \<open>docker ps\<close>) is ASCII, and the
  character classes below are the ASCII behaviour of \<open>str.isspace\<close>, \<open>str.lower\<close>,
  \<open>str.upper\<close> and of the regular expression classes \<open>\d\<close> and \<open>[a-zA-Z0-9]\<close>.
\<close>

definition isdigit :: "char \<Rightarrow> bool" where
  "isdigit c = (c \<in> set ''0123456789'')"

definition isspace :: "char \<Rightarrow> bool" where
  "isspace c = (c \<in> set [CHR 0x09, CHR 0x0A, CHR 0x0B, CHR 0x0C, CHR 0x0D,
                           CHR 0x1C, CHR 0x1D, CHR 0x1E, CHR 0x1F, CHR 0x20])"

definition isalnum :: "char \<Rightarrow> bool" where
  "isalnum c = (c \<in> set (''abcdefghijklmnopqrstuvwxyz'' @ ''ABCDEFGHIJKLMNOPQRSTUVWXYZ''
                           @ ''0123456789''))"

definition lower_char :: "char \<Rightarrow> char" where
  "lower_char c =
     (case map_of (zip ''ABCDEFGHIJKLMNOPQRSTUVWXYZ'' ''abcdefghijklmnopqrstuvwxyz'') c of
        None \<Rightarrow> c | Some d \<Rightarrow> d)"

definition upper_char :: "char \<Rightarrow> char" where
  "upper_char c =
     (case map_of (zip ''abcdefghijklmnopqrstuvwxyz'' ''ABCDEFGHIJKLMNOPQRSTUVWXYZ'') c of
        None \<Rightarrow> c | Some d \<Rightarrow> d)"

text \<open>\<open>s.lower()\<close>\<close>

definition lower :: "string \<Rightarrow> string" where
  "lower s = map lower_char s"

text \<open>\<open>s.capitalize()\<close>: the first character upper-cased, the rest lower-cased.\<close>

fun capitalize :: "string \<Rightarrow> string" where
  "capitalize [] = []"
| "capitalize (c # cs) = upper_char c # lower cs"

text \<open>\<open>s.startswith(p)\<close>, \<open>s.endswith(p)\<close> and \<open>p in s\<close>\<close>

fun startswith :: "string \<Rightarrow> string \<Rightarrow> bool" where
  "startswith s [] = True"
| "startswith [] (p # ps) = False"
| "startswith (x # xs) (p # ps) = (x = p \<and> startswith xs ps)"

definition endswith :: "string \<Rightarrow> string \<Rightarrow> bool" where
  "endswith s p = startswith (rev s) (rev p)"

fun contains :: "string \<Rightarrow> string \<Rightarrow> bool" where
  "contains [] p = (p = [])"
| "contains (x # xs) p = (startswith (x # xs) p \<or> contains xs p)"

text \<open>
  \<open>s.split(sep)\<close> for a non-empty separator: the pieces between the non-overlapping
  occurrences of \<open>sep\<close>, found from the left. The second argument is the piece being
  read. (Python raises \<open>ValueError\<close> for an empty separator; the program never passes one.)
\<close>

function split_from :: "string \<Rightarrow> string \<Rightarrow> string \<Rightarrow> string list" where
  "split_from sep cur [] = [cur]"
| "split_from sep cur (x # xs) =
     (if sep \<noteq> [] \<and> startswith (x # xs) sep
      then cur # split_from sep [] (drop (length sep) (x # xs))
      else split_from sep (cur @ [x]) xs)"
  by pat_completeness auto
termination
  by (relation "measure (\<lambda>(sep, cur, s). length s)") auto

definition split_str :: "string \<Rightarrow> string \<Rightarrow> string list" where
  "split_str sep s = split_from sep [] s"

text \<open>\<open>s.strip()\<close> and \<open>s.strip(c)\<close> for a one-character argument\<close>

definition strip :: "string \<Rightarrow> string" where
  "strip s = rev (dropWhile isspace (rev (dropWhile isspace s)))"

definition strip_char :: "char \<Rightarrow> string \<Rightarrow> string" where
  "strip_char c s = rev (dropWhile (\<lambda>x. x = c) (rev (dropWhile (\<lambda>x. x = c) s)))"

section \<open>Port parser\<close>

text \<open>\<open>re.search(r':(\d+)', s)\<close>: group 1 of the leftmost match, if there is one.\<close>

fun re_search_colon_digits :: "string \<Rightarrow> string option" where
  "re_search_colon_digits [] = None"
| "re_search_colon_digits (c # cs) =
     (if c = CHR '':'' \<and> takeWhile isdigit cs \<noteq> [] then Some (takeWhile isdigit cs)
      else re_search_colon_digits cs)"

text \<open>\<open>re.search(r'(\d+)', s)\<close>: group 1 of the leftmost match, if there is one.\<close>

definition re_search_digits :: "string \<Rightarrow> string option" where
  "re_search_digits s =
     (case dropWhile (\<lambda>c. \<not> isdigit c) s of
        [] \<Rightarrow> None
      | d # ds \<Rightarrow> Some (takeWhile isdigit (d # ds)))"

text \<open>The body of the loop of \<open>parse_ports\<close>: the pairs one clause appends to \<open>ports\<close>.\<close>

definition parse_mapping :: "string \<Rightarrow> (string \<times> string) list" where
  "parse_mapping m =
     (let mapping = strip m in
      if contains mapping ''->'' then
        (let parts = split_str ''->'' mapping in
         if length parts = 2 then
           (let host_part = strip (parts ! 0);
                container_part = strip (parts ! 1) in
            case re_search_colon_digits host_part of
              None \<Rightarrow> []
            | Some host_port \<Rightarrow>
                (case re_search_digits container_part of
                   None \<Rightarrow> []
                 | Some container_port \<Rightarrow> [(host_port, container_port)]))
         else [])
      else if contains mapping '':'' \<and> \<not> startswith mapping ''::'' then
        (let parts = split_str '':'' mapping in
         if length parts \<ge> 2 then
           (let host_port = strip (parts ! 0);
                container_port = hd (split_str ''/'' (strip (parts ! 1))) in
            [(host_port, container_port)])
         else [])
      else [])"

definition parse_ports :: "string \<Rightarrow> (string \<times> string) list" where
  "parse_ports ports_str =
     (if ports_str = [] then []
      else concat (map parse_mapping (split_str '','' ports_str)))"

text \<open>
  The specification's reading of the host port, kept apart from the code: ``the first run
  of digits'' of a segment, wherever it occurs.
\<close>

definition spec_first_digit_run :: "string \<Rightarrow> string" where
  "spec_first_digit_run segment = takeWhile isdigit (dropWhile (\<lambda>c. \<not> isdigit c) segment)"

section \<open>Classifier\<close>

definition database_keywords :: "string list" where
  "database_keywords =
    [''mysql'', ''postgres'', ''postgresql'', ''mongo'', ''mongodb'', ''redis'',
     ''database'', ''db'', ''sql'', ''nosql'', ''mariadb'', ''sqlite'', ''cassandra'',
     ''elasticsearch'', ''influxdb'', ''couchdb'', ''neo4j'', ''orientdb'', ''couchbase'',
     ''dynamodb'', ''firebase'', ''rethinkdb'', ''arangodb'', ''timescaledb'',
     ''clickhouse'', ''questdb'', ''quest'', ''supabase'', ''planetscale'', ''neon'',
     ''railway'', ''vercel'', ''supabase'', ''db-'', ''-db'', ''_db'', ''db_'',
     ''database-'', ''-database'', ''_database'']"

text \<open>The loop returns \<open>True\<close> at the first keyword found in either string.\<close>

fun any_keyword :: "string list \<Rightarrow> string \<Rightarrow> string \<Rightarrow> bool" where
  "any_keyword [] name_lower image_lower = False"
| "any_keyword (keyword # keywords) name_lower image_lower =
     (if contains name_lower keyword \<or> contains image_lower keyword then True
      else any_keyword keywords name_lower image_lower)"

definition is_database_container :: "string \<Rightarrow> string \<Rightarrow> bool" where
  "is_database_container name img =
     (let name_lower = lower name;
          image_lower = lower img
      in any_keyword database_keywords name_lower image_lower)"

section \<open>Name normalizer\<close>

text \<open>
  The vocabulary, in the order of the source: the words, then the ten digits
  \<open>'1'\<close> to \<open>'9'\<close> and \<open>'0'\<close>, then the ten numbered suffixes \<open>'-1'\<close> to \<open>'-9'\<close>
  and \<open>'-0'\<close>.
\<close>

definition generic_terms :: "string list" where
  "generic_terms =
    [''frontend'', ''backend'', ''server'', ''docker'', ''app'', ''web'', ''api'',
     ''service'', ''container'', ''instance'', ''main'', ''primary'', ''default'',
     ''prod'', ''production'', ''dev'', ''development'', ''test'', ''testing'',
     ''staging'', ''preview'', ''demo'', ''example'', ''sample'', ''temp'', ''tmp'',
     ''nginx'', ''proxy'', ''gateway'', ''router'', ''loadbalancer'', ''lb'', ''cache'',
     ''redis'', ''db'', ''database'', ''sql'', ''nosql'', ''storage'', ''file'', ''files'',
     ''upload'', ''download'', ''static'', ''assets'', ''media'', ''image'', ''images'',
     ''video'', ''audio'', ''music'', ''photo'', ''admin'', ''management'', ''dashboard'',
     ''panel'', ''control'', ''config'', ''setup'', ''install'', ''init'', ''bootstrap'',
     ''startup'', ''launcher'', ''runner'', ''executor'', ''worker'', ''processor'',
     ''handler'', ''manager'', ''controller'', ''monitor'', ''watcher'', ''observer'',
     ''listener'', ''receiver'', ''sender'', ''publisher'', ''subscriber'', ''consumer'',
     ''producer'', ''generator'', ''creator'', ''builder'', ''compiler'', ''transformer'',
     ''converter'', ''parser'', ''analyzer'', ''scanner'', ''crawler'', ''spider'',
     ''bot'', ''agent'', ''daemon'', ''process'', ''thread'', ''task'', ''job'', ''work'',
     ''operation'', ''function'', ''module'', ''component'', ''part'', ''piece'', ''unit'',
     ''element'', ''item'', ''object'', ''entity'', ''record'', ''entry'', ''row'',
     ''line'', ''node'', ''point'', ''spot'', ''place'', ''location'', ''position'',
     ''site'', ''area'', ''zone'', ''region'', ''section'', ''segment'', ''chunk'',
     ''block'', ''fragment'', ''portion'', ''bit'', ''part'', ''webservice'',
     ''webserver'', ''webui'', ''web-ui'', ''ui'', ''interface'']
    @ map (\<lambda>d. [d]) ''1234567890''
    @ map (\<lambda>d. [CHR ''-'', d]) ''1234567890''"

definition separators :: "char list" where
  "separators = [CHR ''-'', CHR ''_'', CHR ''.'', CHR '' '']"

text \<open>
  \<open>s.replace(old, new)\<close> for a non-empty \<open>old\<close>: every non-overlapping occurrence,
  from the left. (The patterns of the normalizer have two characters at least.)
\<close>

function replace :: "string \<Rightarrow> string \<Rightarrow> string \<Rightarrow> string" where
  "replace [] old new = []"
| "replace (x # xs) old new =
     (if old \<noteq> [] \<and> startswith (x # xs) old
      then new @ replace (drop (length old) (x # xs)) old new
      else x # replace xs old new)"
  by pat_completeness auto
termination
  by (relation "measure (\<lambda>(s, old, new). length s)") auto

text \<open>\<open>sep.join(xs)\<close>\<close>

fun join :: "string \<Rightarrow> string list \<Rightarrow> string" where
  "join sep [] = []"
| "join sep [x] = x"
| "join sep (x # y # ys) = x @ sep @ join sep (y # ys)"

text \<open>\<open>s.split()\<close>: the maximal runs of non-whitespace characters.\<close>

fun split_ws_from :: "string \<Rightarrow> string \<Rightarrow> string list" where
  "split_ws_from cur [] = (if cur = [] then [] else [cur])"
| "split_ws_from cur (x # xs) =
     (if isspace x then (if cur = [] then [] else [cur]) @ split_ws_from [] xs
      else split_ws_from (cur @ [x]) xs)"

definition split_ws :: "string \<Rightarrow> string list" where
  "split_ws s = split_ws_from [] s"

text \<open>\<open>re.split(r'[^a-zA-Z0-9]+', s)\<close>: the pieces between the maximal runs of other characters.\<close>

function re_split_from :: "string \<Rightarrow> string \<Rightarrow> string list" where
  "re_split_from cur [] = [cur]"
| "re_split_from cur (x # xs) =
     (if isalnum x then re_split_from (cur @ [x]) xs
      else cur # re_split_from [] (dropWhile (\<lambda>c. \<not> isalnum c) xs))"
  by pat_completeness auto
termination
  by (relation "measure (\<lambda>(cur, s). length s)")
     (auto simp: less_Suc_eq_le length_dropWhile_le)

definition re_split_non_alnum :: "string \<Rightarrow> string list" where
  "re_split_non_alnum s = re_split_from [] s"

text \<open>\<open>image.split('/')[-1].split(':')[0].split('@')[0]\<close> (the parameter \<open>image\<close> is written \<open>img\<close>)\<close>

definition image_parts :: "string \<Rightarrow> string" where
  "image_parts img =
     hd (split_str ''@'' (hd (split_str '':'' (last (split_str ''/'' img)))))"

text \<open>The body of the inner loop: one term, one separator.\<close>

definition remove_term :: "string \<Rightarrow> string \<Rightarrow> char \<Rightarrow> string" where
  "remove_term term cleaned0 separator =
     (let cleaned1 = replace cleaned0 (separator # term @ [separator]) [separator];
          pattern1 = term @ [separator];
          cleaned2 = (if startswith cleaned1 pattern1
                      then drop (length pattern1) cleaned1 else cleaned1);
          pattern2 = separator # term;
          cleaned3 = (if endswith cleaned2 pattern2
                      then take (length cleaned2 - length pattern2) cleaned2 else cleaned2)
      in cleaned3)"

definition remove_generic_terms :: "string \<Rightarrow> string" where
  "remove_generic_terms cleaned_name =
     foldl (\<lambda>cleaned term. foldl (remove_term term) cleaned separators)
       cleaned_name generic_terms"

definition strip_separators :: "string \<Rightarrow> string" where
  "strip_separators cleaned_name = foldl (\<lambda>cleaned separator. strip_char separator cleaned)
     cleaned_name separators"

text \<open>The body of the loop that removes duplicates: one word.\<close>

definition add_unique_word :: "string list \<Rightarrow> string \<Rightarrow> string list" where
  "add_unique_word unique_words word =
     (if word \<noteq> [] \<and> lower word \<notin> set (map lower unique_words)
      then unique_words @ [word] else unique_words)"

definition unique_words_of :: "string list \<Rightarrow> string list" where
  "unique_words_of words = foldl add_unique_word [] words"

text \<open>The cleaned name before the length test (lines 185 to 213).\<close>

definition cleaned_words :: "string \<Rightarrow> string" where
  "cleaned_words name =
     join '' '' (unique_words_of (re_split_non_alnum
       (strip_separators (remove_generic_terms (lower name)))))"

definition title_words :: "string \<Rightarrow> string" where
  "title_words cleaned_name = join '' '' (map capitalize (split_ws cleaned_name))"

definition clean_container_name :: "string \<Rightarrow> string \<Rightarrow> string" where
  "clean_container_name name img =
     (let cleaned_name = cleaned_words name;
          cleaned_name = (if length cleaned_name < 3 \<or> cleaned_name = []
                          then image_parts img else cleaned_name)
      in title_words cleaned_name)"

section \<open>Container lister\<close>

text \<open>
  A container is the dictionary built by the lister. \<open>d.get(k, default)\<close> reads it.
\<close>

type_synonym container = "string \<rightharpoonup> string"

definition dict_get :: "container \<Rightarrow> string \<Rightarrow> string \<Rightarrow> string" where
  "dict_get d k dflt = (case d k of None \<Rightarrow> dflt | Some v \<Rightarrow> v)"

text \<open>
  \<open>subprocess.run(cmd, capture_output=True, text=True, check=True)\<close> either raises
  or returns the standard output of the command. The runtime is a parameter of the model:
  it maps the command line to \<open>Inl\<close> of the exception raised or \<open>Inr\<close> of the output.
  \<open>OSError_other\<close> stands for the exceptions that the lister has no handler for.
\<close>

datatype py_exception =
    CalledProcessError int
  | FileNotFoundError
  | OSError_other string

type_synonym runtime = "string list \<Rightarrow> py_exception + string"

text \<open>What the lister prints.\<close>

datatype printed =
    Error_running_docker_command py_exception
  | Docker_not_found

definition docker_cmd :: "bool \<Rightarrow> string list" where
  "docker_cmd all_containers =
     [''docker'', ''ps''] @ (if all_containers then [''-a''] else [])
       @ [''--format'', ''{{.Names}}|{{.Image}}|{{.Status}}|{{.Ports}}'']"

text \<open>The body of the loop over the lines: the containers one line appends.\<close>

definition container_of_line :: "string \<Rightarrow> container list" where
  "container_of_line line =
     (if strip line \<noteq> [] then
        (let parts = split_str ''|'' line in
         if length parts \<ge> 4 then
           [[''Name'' \<mapsto> parts ! 0, ''Image'' \<mapsto> parts ! 1,
             ''Status'' \<mapsto> parts ! 2, ''Ports'' \<mapsto> parts ! 3]]
         else [])
      else [])"

definition containers_of_stdout :: "string \<Rightarrow> container list" where
  "containers_of_stdout stdout =
     concat (map container_of_line (split_str [CHR 0x0A] (strip stdout)))"

text \<open>
  The result is \<open>Inl\<close> of an exception that leaves the function, or \<open>Inr\<close> of what
  was printed and the list returned.
\<close>

definition get_docker_containers ::
    "runtime \<Rightarrow> bool \<Rightarrow> py_exception + (printed list \<times> container list)" where
  "get_docker_containers run all_containers =
     (case run (docker_cmd all_containers) of
        Inr stdout \<Rightarrow> Inr ([], containers_of_stdout stdout)
      | Inl (CalledProcessError rc) \<Rightarrow>
          Inr ([Error_running_docker_command (CalledProcessError rc)], [])
      | Inl FileNotFoundError \<Rightarrow> Inr ([Docker_not_found], [])
      | Inl (OSError_other e) \<Rightarrow> Inl (OSError_other e))"

section \<open>Catalog builder\<close>

text \<open>
  The dataclass \<open>DockerService\<close>. Its fields \<open>name\<close>, \<open>image\<close>, \<open>status\<close>, \<open>ports\<close>,
  \<open>github_repo\<close>, \<open>category\<close> and \<open>description\<close> carry the prefix \<open>svc_\<close> here.
\<close>

record DockerService =
  svc_name :: string
  svc_image :: string
  svc_status :: string
  svc_ports :: "(string \<times> string) list"
  svc_github_repo :: "string option"
  svc_category :: string
  svc_description :: string

definition container_name :: "container \<Rightarrow> string" where
  "container_name c = dict_get c ''Name'' []"

definition container_image :: "container \<Rightarrow> string" where
  "container_image c = dict_get c ''Image'' []"

definition container_status :: "container \<Rightarrow> string" where
  "container_status c = dict_get c ''Status'' []"

definition container_ports :: "container \<Rightarrow> (string \<times> string) list" where
  "container_ports c = parse_ports (dict_get c ''Ports'' [])"

text \<open>The service built at lines 243 to 251, with the defaults of the dataclass.\<close>

definition make_service :: "container \<Rightarrow> DockerService" where
  "make_service c =
     \<lparr> svc_name = clean_container_name (container_name c) (container_image c),
       svc_image = container_image c,
       svc_status = container_status c,
       svc_ports = container_ports c,
       svc_github_repo = None,
       svc_category = ''Other'',
       svc_description = [] \<rparr>"

text \<open>The loop over the containers, in order, with its two \<open>continue\<close> statements.\<close>

fun collect_services :: "container list \<Rightarrow> DockerService list" where
  "collect_services [] = []"
| "collect_services (c # cs) =
     (if is_database_container (container_name c) (container_image c) then collect_services cs
      else if container_ports c = [] then collect_services cs
      else make_service c # collect_services cs)"

text \<open>\<open>services.sort(key=lambda x: x.name.lower())\<close>; the sort of Python is stable.\<close>

definition sort_services :: "DockerService list \<Rightarrow> DockerService list" where
  "sort_services services = sort_key (\<lambda>x. lower (svc_name x)) services"

definition build_catalog :: "container list \<Rightarrow> DockerService list" where
  "build_catalog containers = sort_services (collect_services containers)"

definition process_containers ::
    "runtime \<Rightarrow> bool \<Rightarrow> py_exception + (printed list \<times> DockerService list)" where
  "process_containers run show_all =
     (case get_docker_containers run show_all of
        Inl e \<Rightarrow> Inl e
      | Inr (out, containers) \<Rightarrow> Inr (out, build_catalog containers))"

section \<open>Facts about the string operations\<close>

lemma startswith_iff: "startswith s p \<longleftrightarrow> (\<exists>r. s = p @ r)"
  by (induction s p rule: startswith.induct) auto

lemma contains_iff: "contains s p \<longleftrightarrow> (\<exists>a b. s = a @ p @ b)"
proof (induction s)
  case Nil
  then show ?case by auto
next
  case (Cons x xs)
  show ?case
  proof
    assume "contains (x # xs) p"
    then consider "startswith (x # xs) p" | "contains xs p" by auto
    then show "\<exists>a b. x # xs = a @ p @ b"
    proof cases
      case 1
      then obtain r where "x # xs = p @ r" by (auto simp: startswith_iff)
      then have "x # xs = [] @ p @ r" by simp
      then show ?thesis by blast
    next
      case 2
      then obtain a b where "xs = a @ p @ b" using Cons.IH by auto
      then have "x # xs = (x # a) @ p @ b" by simp
      then show ?thesis by blast
    qed
  next
    assume "\<exists>a b. x # xs = a @ p @ b"
    then obtain a b where ab: "x # xs = a @ p @ b" by auto
    show "contains (x # xs) p"
    proof (cases a)
      case Nil
      with ab have "startswith (x # xs) p" by (auto simp: startswith_iff)
      then show ?thesis by simp
    next
      case (Cons y ys)
      with ab have "xs = ys @ p @ b" by simp
      with Cons.IH show ?thesis by auto
    qed
  qed
qed

section \<open>Splitting at a separator\<close>

lemma split_from_nonempty: "split_from sep cur s \<noteq> []"
  by (induction sep cur s rule: split_from.induct) simp_all

lemma join_Cons: "ys \<noteq> [] \<Longrightarrow> join sep (x # ys) = x @ sep @ join sep ys"
  by (cases ys) simp_all

lemma join_split_from: "sep \<noteq> [] \<Longrightarrow> join sep (split_from sep cur s) = cur @ s"
proof (induction sep cur s rule: split_from.induct)
  case (1 sep cur)
  then show ?case by simp
next
  case (2 sep cur x xs)
  show ?case
  proof (cases "startswith (x # xs) sep")
    case True
    then obtain r where r: "x # xs = sep @ r" using startswith_iff by blast
    have d: "drop (length sep) (x # xs) = r" unfolding r by simp
    have ih: "join sep (split_from sep [] (drop (length sep) (x # xs)))
                = [] @ drop (length sep) (x # xs)"
      using "2.IH"(1) "2.prems" True by blast
    have "split_from sep cur (x # xs) = cur # split_from sep [] (drop (length sep) (x # xs))"
      using True "2.prems" by simp
    then have "join sep (split_from sep cur (x # xs))
                 = cur @ sep @ join sep (split_from sep [] (drop (length sep) (x # xs)))"
      by (simp only: join_Cons [OF split_from_nonempty])
    also have "\<dots> = cur @ sep @ r" using ih unfolding d by simp
    finally show ?thesis by (simp only: r)
  next
    case False
    then have "split_from sep cur (x # xs) = split_from sep (cur @ [x]) xs" by simp
    moreover have "join sep (split_from sep (cur @ [x]) xs) = (cur @ [x]) @ xs"
      using "2.IH"(2) "2.prems" False by blast
    ultimately show ?thesis by simp
  qed
qed

lemma split_from_char_Cons:
  "split_from [c] cur (x # xs) =
     (if x = c then cur # split_from [c] [] xs else split_from [c] (cur @ [x]) xs)"
  by simp

lemma split_from_char_absent: "c \<notin> set f \<Longrightarrow> split_from [c] cur f = [cur @ f]"
  by (induction f arbitrary: cur) (auto simp add: split_from_char_Cons simp del: split_from.simps(2))

lemma split_from_char_field:
  "c \<notin> set f \<Longrightarrow> split_from [c] cur (f @ c # rest) = (cur @ f) # split_from [c] [] rest"
  by (induction f arbitrary: cur) (auto simp add: split_from_char_Cons simp del: split_from.simps(2))

lemma length_split_from_char: "length (split_from [c] cur s) = Suc (count_list s c)"
  by (induction s arbitrary: cur) (simp_all add: split_from_char_Cons del: split_from.simps(2))






section \<open>The classifier\<close>

lemma any_keyword_iff:
  "any_keyword ks n i \<longleftrightarrow> (\<exists>k\<in>set ks. contains n k \<or> contains i k)"
  by (induction ks) auto

lemma is_database_container_mypg: "\<not> is_database_container ''mypg'' ''alpine''"
  by (simp add: is_database_container_def database_keywords_def lower_def lower_char_def)

lemma is_database_container_postgres: "is_database_container ''myapp'' ''postgres:15''"
  by (simp add: is_database_container_def database_keywords_def lower_def lower_char_def)

lemma is_database_container_webapp:
  "\<not> is_database_container ''webapp'' ''myorg/webapp:latest''"
  by (simp add: is_database_container_def database_keywords_def lower_def lower_char_def)

text \<open>
  C5, as the specification states it, fails at its first instance: no keyword of the
  vocabulary occurs in \<open>mypg\<close> or in \<open>alpine\<close> (\<open>pg\<close> is not a keyword), so the
  classifier answers \<open>False\<close> there.
\<close>

theorem classifier_mypg_not_infrastructure:
  "is_database_container ''mypg'' ''alpine'' = False"
  using is_database_container_mypg by simp

text \<open>
  C5 (amended): the classifier is symmetric in name and image; it holds exactly when some
  keyword of the vocabulary is a substring of the lower-cased name or of the lower-cased
  image; it is false on \<open>("mypg", "alpine")\<close>, true on \<open>("myapp", "postgres:15")\<close> and
  false on \<open>("webapp", "myorg/webapp:latest")\<close>.
\<close>

theorem classifier_symmetric_by_containment:
  "is_database_container name img = is_database_container img name
   \<and> (is_database_container name img \<longleftrightarrow>
        (\<exists>keyword \<in> set database_keywords.
           (\<exists>a b. lower name = a @ keyword @ b) \<or> (\<exists>a b. lower img = a @ keyword @ b)))
   \<and> \<not> is_database_container ''mypg'' ''alpine''
   \<and> is_database_container ''myapp'' ''postgres:15''
   \<and> \<not> is_database_container ''webapp'' ''myorg/webapp:latest''"
proof -
  have iff: "is_database_container n i \<longleftrightarrow>
        (\<exists>keyword \<in> set database_keywords.
           (\<exists>a b. lower n = a @ keyword @ b) \<or> (\<exists>a b. lower i = a @ keyword @ b))" for n i
    by (simp add: is_database_container_def any_keyword_iff contains_iff)
  have "is_database_container name img = is_database_container img name"
    unfolding iff by blast
  with iff is_database_container_mypg is_database_container_postgres
    is_database_container_webapp
  show ?thesis by blast
qed

text \<open>The symmetry, used at a name without keyword and a Postgres image.\<close>

theorem classifier_symmetric_by_containment_witness:
  "is_database_container ''postgres:15'' ''pg-main''"
proof -
  have "is_database_container ''pg-main'' ''postgres:15''"
    by (simp add: is_database_container_def database_keywords_def lower_def lower_char_def)
  then show ?thesis
    using conjunct1 [OF classifier_symmetric_by_containment [of "''pg-main''" "''postgres:15''"]]
    by simp
qed

section \<open>The failure modes of the lister\<close>

text \<open>
  C9: when the runtime binary is absent (\<open>FileNotFoundError\<close>) and when the command exits
  non-zero (\<open>CalledProcessError\<close>), the lister returns the empty list after printing its
  message, no exception leaves it, and the catalog built downstream is empty.
\<close>

theorem lister_failure_modes_return_empty:
  "(run (docker_cmd all_containers) = Inl FileNotFoundError \<longrightarrow>
      get_docker_containers run all_containers = Inr ([Docker_not_found], [])
      \<and> process_containers run all_containers = Inr ([Docker_not_found], []))
   \<and> (run (docker_cmd all_containers) = Inl (CalledProcessError rc) \<longrightarrow>
      get_docker_containers run all_containers
        = Inr ([Error_running_docker_command (CalledProcessError rc)], [])
      \<and> process_containers run all_containers
        = Inr ([Error_running_docker_command (CalledProcessError rc)], []))"
  by (simp add: get_docker_containers_def process_containers_def build_catalog_def
      sort_services_def)

text \<open>Both failure modes at concrete runtimes.\<close>

theorem lister_failure_modes_return_empty_witness:
  "get_docker_containers (\<lambda>cmd. if hd cmd = ''docker'' then Inl FileNotFoundError else Inr []) True
     = Inr ([Docker_not_found], [])
   \<and> process_containers (\<lambda>cmd. Inl (CalledProcessError 1)) False
     = Inr ([Error_running_docker_command (CalledProcessError 1)], [])"
  using lister_failure_modes_return_empty
          [of "\<lambda>cmd. if hd cmd = ''docker'' then Inl FileNotFoundError else Inr []" True 1]
        lister_failure_modes_return_empty [of "\<lambda>cmd. Inl (CalledProcessError 1)" False 1]
  by (simp add: docker_cmd_def)

section \<open>The lines of the runtime output\<close>

lemma split_str_four_fields:
  assumes "CHR ''|'' \<notin> set f0" "CHR ''|'' \<notin> set f1" "CHR ''|'' \<notin> set f2"
    "CHR ''|'' \<notin> set f3" "rest = [] \<or> hd rest = CHR ''|''"
  shows "\<exists>more. split_str ''|'' (f0 @ ''|'' @ f1 @ ''|'' @ f2 @ ''|'' @ f3 @ rest)
           = f0 # f1 # f2 # f3 # more"
proof -
  have a: "split_str ''|'' (f0 @ ''|'' @ f1 @ ''|'' @ f2 @ ''|'' @ f3 @ rest)
        = f0 # f1 # f2 # split_from ''|'' [] (f3 @ rest)"
    using assms(1-3) by (simp add: split_str_def split_from_char_field del: split_from.simps(2))
  show ?thesis
  proof (cases rest)
    case Nil
    then show ?thesis using a assms(4) by (simp add: split_from_char_absent)
  next
    case (Cons r rs)
    with assms(5) have "rest = CHR ''|'' # rs" by simp
    then show ?thesis
      using a assms(4) by (simp add: split_from_char_field del: split_from.simps(2))
  qed
qed

lemma container_of_line_few_fields:
  "count_list line (CHR ''|'') < 3 \<Longrightarrow> container_of_line line = []"
  by (simp add: container_of_line_def split_str_def length_split_from_char Let_def)

lemma container_of_line_blank: "strip line = [] \<Longrightarrow> container_of_line line = []"
  by (simp add: container_of_line_def)

lemma container_of_line_four_fields:
  assumes "CHR ''|'' \<notin> set f0" "CHR ''|'' \<notin> set f1" "CHR ''|'' \<notin> set f2"
    "CHR ''|'' \<notin> set f3" "rest = [] \<or> hd rest = CHR ''|''"
    and "strip (f0 @ ''|'' @ f1 @ ''|'' @ f2 @ ''|'' @ f3 @ rest) \<noteq> []"
  shows "container_of_line (f0 @ ''|'' @ f1 @ ''|'' @ f2 @ ''|'' @ f3 @ rest)
           = [[''Name'' \<mapsto> f0, ''Image'' \<mapsto> f1, ''Status'' \<mapsto> f2, ''Ports'' \<mapsto> f3]]"
proof -
  from split_str_four_fields [OF assms(1-5)] obtain more where
    "split_str ''|'' (f0 @ ''|'' @ f1 @ ''|'' @ f2 @ ''|'' @ f3 @ rest) = f0 # f1 # f2 # f3 # more"
    by blast
  then show ?thesis using assms(6) by (simp add: container_of_line_def Let_def)
qed

text \<open>
  C10: a line that is blank or has fewer than three pipe characters, hence fewer than four
  fields, adds no container; a non-blank line whose first four fields are \<open>f0\<close> to \<open>f3\<close>
  adds the container made of these four, whatever follows a fourth pipe character; and on
  a successful run the lister returns, without printing, the containers of the lines of the
  stripped output, in order.
\<close>

theorem lister_keeps_first_four_fields:
  "(strip line = [] \<or> count_list line (CHR ''|'') < 3 \<longrightarrow> container_of_line line = [])
   \<and> (CHR ''|'' \<notin> set f0 \<union> set f1 \<union> set f2 \<union> set f3
        \<and> (rest = [] \<or> hd rest = CHR ''|'')
        \<and> strip (f0 @ ''|'' @ f1 @ ''|'' @ f2 @ ''|'' @ f3 @ rest) \<noteq> [] \<longrightarrow>
      container_of_line (f0 @ ''|'' @ f1 @ ''|'' @ f2 @ ''|'' @ f3 @ rest)
        = [[''Name'' \<mapsto> f0, ''Image'' \<mapsto> f1, ''Status'' \<mapsto> f2, ''Ports'' \<mapsto> f3]])
   \<and> (run (docker_cmd all_containers) = Inr stdout \<longrightarrow>
      get_docker_containers run all_containers
        = Inr ([], concat (map container_of_line (split_str [CHR 0x0A] (strip stdout)))))"
proof -
  have "container_of_line line = []" if "strip line = [] \<or> count_list line (CHR ''|'') < 3"
    using that container_of_line_few_fields container_of_line_blank by blast
  moreover have "container_of_line (f0 @ ''|'' @ f1 @ ''|'' @ f2 @ ''|'' @ f3 @ rest)
        = [[''Name'' \<mapsto> f0, ''Image'' \<mapsto> f1, ''Status'' \<mapsto> f2, ''Ports'' \<mapsto> f3]]"
    if "CHR ''|'' \<notin> set f0 \<union> set f1 \<union> set f2 \<union> set f3
        \<and> (rest = [] \<or> hd rest = CHR ''|'')
        \<and> strip (f0 @ ''|'' @ f1 @ ''|'' @ f2 @ ''|'' @ f3 @ rest) \<noteq> []"
    using that by (intro container_of_line_four_fields) auto
  moreover have "get_docker_containers run all_containers
        = Inr ([], concat (map container_of_line (split_str [CHR 0x0A] (strip stdout))))"
    if "run (docker_cmd all_containers) = Inr stdout"
    using that by (simp add: get_docker_containers_def containers_of_stdout_def)
  ultimately show ?thesis by blast
qed

text \<open>A line of three fields is dropped; a line of six fields keeps its first four.\<close>

theorem lister_keeps_first_four_fields_witness:
  "container_of_line ''bad|line|only'' = []
   \<and> container_of_line ''web|nginx:1.25|Up 2 hours|0.0.0.0:80->80/tcp|extra|more''
       = [[''Name'' \<mapsto> ''web'', ''Image'' \<mapsto> ''nginx:1.25'', ''Status'' \<mapsto> ''Up 2 hours'',
           ''Ports'' \<mapsto> ''0.0.0.0:80->80/tcp'']]
   \<and> get_docker_containers (\<lambda>cmd. Inr ''a|b'') False
       = Inr ([], concat (map container_of_line (split_str [CHR 0x0A] (strip ''a|b''))))"
proof -
  have a: "strip ''bad|line|only'' = [] \<or> count_list ''bad|line|only'' (CHR ''|'') < 3"
    by simp
  have b: "CHR ''|'' \<notin> set ''web'' \<union> set ''nginx:1.25'' \<union> set ''Up 2 hours''
             \<union> set ''0.0.0.0:80->80/tcp''
        \<and> (''|extra|more'' = [] \<or> hd ''|extra|more'' = CHR ''|'')
        \<and> strip (''web'' @ ''|'' @ ''nginx:1.25'' @ ''|'' @ ''Up 2 hours'' @ ''|''
                   @ ''0.0.0.0:80->80/tcp'' @ ''|extra|more'') \<noteq> []"
    by (simp add: strip_def isspace_def)
  have c: "(\<lambda>cmd. Inr ''a|b'' :: py_exception + string) (docker_cmd False) = Inr ''a|b''"
    by simp
  from a b c
    lister_keeps_first_four_fields [of "''bad|line|only''" "''web''" "''nginx:1.25''"
      "''Up 2 hours''" "''0.0.0.0:80->80/tcp''" "''|extra|more''"
      "\<lambda>cmd. Inr ''a|b''" False "''a|b''"]
  show ?thesis by simp
qed

section \<open>The port parser\<close>

subsection \<open>What the two searches return\<close>

lemma re_search_digits_Some:
  assumes "re_search_digits s = Some d"
  shows "\<exists>pre post. s = pre @ d @ post \<and> (\<forall>c\<in>set pre. \<not> isdigit c) \<and> d \<noteq> []
           \<and> (\<forall>c\<in>set d. isdigit c) \<and> (post = [] \<or> \<not> isdigit (hd post))"
proof -
  define pre where "pre = takeWhile (\<lambda>c. \<not> isdigit c) s"
  define rest where "rest = dropWhile (\<lambda>c. \<not> isdigit c) s"
  define post where "post = dropWhile isdigit rest"
  have s: "s = pre @ rest" by (simp add: pre_def rest_def)
  have r: "(case rest of [] \<Rightarrow> None | x # xs \<Rightarrow> Some (takeWhile isdigit (x # xs))) = Some d"
    using assms unfolding re_search_digits_def rest_def .
  from r have rest: "rest \<noteq> []" by (cases rest) simp_all
  from r have d: "d = takeWhile isdigit rest" by (cases rest) auto
  have "\<not> (\<not> isdigit (hd rest))" using rest unfolding rest_def by (rule hd_dropWhile)
  then have "isdigit (hd rest)" by simp
  then have dne: "d \<noteq> []" using rest d by (cases rest) simp_all
  have "rest = d @ post" by (simp add: d post_def)
  then have "s = pre @ d @ post" using s by simp
  moreover have "\<forall>c\<in>set pre. \<not> isdigit c"
    unfolding pre_def using set_takeWhileD by fastforce
  moreover have "\<forall>c\<in>set d. isdigit c" unfolding d using set_takeWhileD by fastforce
  moreover have "post = [] \<or> \<not> isdigit (hd post)"
    unfolding post_def using hd_dropWhile by blast
  ultimately show ?thesis using dne by blast
qed

lemma re_search_colon_digits_Some:
  "re_search_colon_digits s = Some h \<Longrightarrow>
   \<exists>pre post. s = pre @ CHR '':'' # h @ post \<and> h \<noteq> [] \<and> (\<forall>c\<in>set h. isdigit c)
     \<and> (post = [] \<or> \<not> isdigit (hd post))
     \<and> (\<forall>u d v. pre = u @ CHR '':'' # d # v \<longrightarrow> \<not> isdigit d)"
proof (induction s)
  case Nil
  then show ?case by simp
next
  case (Cons c cs)
  show ?case
  proof (cases "c = CHR '':'' \<and> takeWhile isdigit cs \<noteq> []")
    case True
    with Cons.prems have h: "h = takeWhile isdigit cs" by simp
    define post where "post = dropWhile isdigit cs"
    have "c # cs = [] @ CHR '':'' # h @ post" using True by (simp add: h post_def)
    moreover have "h \<noteq> []" using True h by simp
    moreover have "\<forall>c\<in>set h. isdigit c" unfolding h using set_takeWhileD by fastforce
    moreover have "post = [] \<or> \<not> isdigit (hd post)"
      unfolding post_def using hd_dropWhile by blast
    moreover have "\<forall>u d v. ([]::string) = u @ CHR '':'' # d # v \<longrightarrow> \<not> isdigit d" by simp
    ultimately show ?thesis by blast
  next
    case False
    with Cons.prems have "re_search_colon_digits cs = Some h" by auto
    from Cons.IH [OF this] obtain pre post where
      cs: "cs = pre @ CHR '':'' # h @ post" and hne: "h \<noteq> []"
      and hd: "\<forall>c\<in>set h. isdigit c" and post: "post = [] \<or> \<not> isdigit (hd post)"
      and first: "\<forall>u d v. pre = u @ CHR '':'' # d # v \<longrightarrow> \<not> isdigit d"
      by blast
    have "\<not> isdigit d" if eq: "c # pre = u @ CHR '':'' # d # v" for u d v
    proof (cases u)
      case Nil
      with eq have c: "c = CHR '':''" and pre: "pre = d # v" by simp_all
      from c False have "takeWhile isdigit cs = []" by simp
      moreover have "cs = d # (v @ CHR '':'' # h @ post)" using cs pre by simp
      ultimately show ?thesis by (auto split: if_splits)
    next
      case (Cons a u')
      with eq have "pre = u' @ CHR '':'' # d # v" by simp
      with first show ?thesis by blast
    qed
    then have "\<forall>u d v. c # pre = u @ CHR '':'' # d # v \<longrightarrow> \<not> isdigit d" by blast
    moreover have "c # cs = (c # pre) @ CHR '':'' # h @ post" using cs by simp
    ultimately show ?thesis using hne hd post by blast
  qed
qed

subsection \<open>Clauses with an arrow\<close>

lemma parse_mapping_arrow:
  assumes arrow: "contains (strip m) ''->''"
    and emitted: "(host_port, container_port) \<in> set (parse_mapping m)"
  shows "\<exists>left right. split_str ''->'' (strip m) = [left, right]
           \<and> strip m = left @ ''->'' @ right
           \<and> re_search_colon_digits (strip left) = Some host_port
           \<and> re_search_digits (strip right) = Some container_port"
proof -
  define parts where "parts = split_str ''->'' (strip m)"
  have "parse_mapping m =
     (if length (split_str ''->'' (strip m)) = 2 then
        (case re_search_colon_digits (strip (split_str ''->'' (strip m) ! 0)) of
           None \<Rightarrow> []
         | Some h \<Rightarrow>
             (case re_search_digits (strip (split_str ''->'' (strip m) ! 1)) of
                None \<Rightarrow> []
              | Some c \<Rightarrow> [(h, c)]))
      else [])"
    using arrow by (simp only: parse_mapping_def Let_def if_True)
  then have pm: "parse_mapping m =
     (if length parts = 2 then
        (case re_search_colon_digits (strip (parts ! 0)) of
           None \<Rightarrow> []
         | Some h \<Rightarrow>
             (case re_search_digits (strip (parts ! 1)) of
                None \<Rightarrow> []
              | Some c \<Rightarrow> [(h, c)]))
      else [])"
    by (simp only: parts_def)
  have len: "length parts = 2"
  proof (rule ccontr)
    assume "length parts \<noteq> 2"
    with pm have "parse_mapping m = []" by simp
    with emitted show False by simp
  qed
  then obtain left right where lr: "parts = [left, right]"
    by (cases parts; cases "tl parts") auto
  have "join ''->'' parts = [] @ strip m"
    unfolding parts_def split_str_def by (rule join_split_from) simp
  then have whole: "strip m = left @ ''->'' @ right" by (simp add: lr)
  have p0: "parts ! 0 = left" and p1: "parts ! 1 = right" using lr by simp_all
  from pm [unfolded p0 p1] len have pm2: "parse_mapping m =
        (case re_search_colon_digits (strip left) of
           None \<Rightarrow> []
         | Some h \<Rightarrow>
             (case re_search_digits (strip right) of
                None \<Rightarrow> []
              | Some c \<Rightarrow> [(h, c)]))"
    by simp
  have "re_search_colon_digits (strip left) = Some host_port
        \<and> re_search_digits (strip right) = Some container_port"
  proof (cases "re_search_colon_digits (strip left)")
    case None
    with pm2 emitted show ?thesis by simp
  next
    case h: (Some h)
    show ?thesis
    proof (cases "re_search_digits (strip right)")
      case None
      with pm2 h emitted show ?thesis by simp
    next
      case (Some c)
      with pm2 h emitted show ?thesis by simp
    qed
  qed
  with lr whole show ?thesis unfolding parts_def by blast
qed

lemma parse_mapping_ipv4: "parse_mapping ''0.0.0.0:8080->80/tcp'' = [(''8080'', ''80'')]"
  by (simp add: parse_mapping_def split_str_def strip_def isspace_def isdigit_def
      re_search_digits_def)

text \<open>
  C4, as the specification states it, fails on the usual IPv4 clause: the first run of
  digits of the left segment \<open>0.0.0.0:8080\<close> is \<open>0\<close>, and the host port emitted is
  \<open>8080\<close>.
\<close>

theorem arrow_host_port_is_not_first_digit_run:
  "contains ''0.0.0.0:8080->80/tcp'' ''->''
   \<and> parse_mapping ''0.0.0.0:8080->80/tcp'' = [(''8080'', ''80'')]
   \<and> spec_first_digit_run ''0.0.0.0:8080'' = ''0''"
  by (simp add: parse_mapping_ipv4 spec_first_digit_run_def isdigit_def)

text \<open>
  C4 (amended): a clause with an arrow that emits a mapping splits at its only arrow into
  a left and a right segment; the host port is the first maximal run of digits of the
  left segment that directly follows a colon, and the container port is the first maximal
  run of digits of the right segment.
\<close>

theorem arrow_clause_ports:
  assumes "contains (strip m) ''->''"
    and "(host_port, container_port) \<in> set (parse_mapping m)"
  shows "\<exists>left right. split_str ''->'' (strip m) = [left, right]
           \<and> strip m = left @ ''->'' @ right
           \<and> (\<exists>pre post. strip left = pre @ CHR '':'' # host_port @ post
                 \<and> host_port \<noteq> [] \<and> (\<forall>c\<in>set host_port. isdigit c)
                 \<and> (post = [] \<or> \<not> isdigit (hd post))
                 \<and> (\<forall>u d v. pre = u @ CHR '':'' # d # v \<longrightarrow> \<not> isdigit d))
           \<and> (\<exists>pre post. strip right = pre @ container_port @ post
                 \<and> (\<forall>c\<in>set pre. \<not> isdigit c)
                 \<and> container_port \<noteq> [] \<and> (\<forall>c\<in>set container_port. isdigit c)
                 \<and> (post = [] \<or> \<not> isdigit (hd post)))
           \<and> container_port = spec_first_digit_run (strip right)"
proof -
  from parse_mapping_arrow [OF assms] obtain left right where
    sp: "split_str ''->'' (strip m) = [left, right]" and whole: "strip m = left @ ''->'' @ right"
    and h: "re_search_colon_digits (strip left) = Some host_port"
    and c: "re_search_digits (strip right) = Some container_port"
    by blast
  have "container_port = spec_first_digit_run (strip right)"
    using c by (auto simp: re_search_digits_def spec_first_digit_run_def split: list.splits)
  with sp whole re_search_colon_digits_Some [OF h] re_search_digits_Some [OF c]
  show ?thesis by blast
qed

text \<open>The clause \<open>0.0.0.0:8080->80/tcp\<close> has an arrow and emits \<open>("8080", "80")\<close>.\<close>

theorem arrow_clause_ports_witness:
  "contains (strip ''0.0.0.0:8080->80/tcp'') ''->''
   \<and> (''8080'', ''80'') \<in> set (parse_mapping ''0.0.0.0:8080->80/tcp'')
   \<and> (\<exists>left right. strip ''0.0.0.0:8080->80/tcp'' = left @ ''->'' @ right
         \<and> (\<exists>pre post. strip left = pre @ CHR '':'' # ''8080'' @ post)
         \<and> ''80'' = spec_first_digit_run (strip right))"
proof -
  have a: "contains (strip ''0.0.0.0:8080->80/tcp'') ''->''"
    by (simp add: strip_def isspace_def)
  have b: "(''8080'', ''80'') \<in> set (parse_mapping ''0.0.0.0:8080->80/tcp'')"
    by (simp add: parse_mapping_ipv4)
  from arrow_clause_ports [OF a b] a b show ?thesis by blast
qed

subsection \<open>Two inputs on which the parser goes wrong\<close>

text \<open>
  C1: a clause without an arrow is cut at its colons with no test of what the pieces
  hold. The shorthand clause \<open>127.0.0.1:8080:80/tcp\<close> emits the address as host port
  and the host port as container port.
\<close>

theorem shorthand_branch_emits_non_digits:
  "parse_ports ''127.0.0.1:8080:80/tcp'' = [(''127.0.0.1'', ''8080'')]
   \<and> CHR ''.'' \<in> set ''127.0.0.1'' \<and> \<not> isdigit (CHR ''.'')"
  by (simp add: parse_ports_def parse_mapping_def split_str_def strip_def isspace_def
      isdigit_def)

text \<open>
  C3: for a bracketed IPv6 interface with a group of digits after a colon, the search for
  \<open>:(\d+)\<close> stops inside the address: \<open>[::1]:8080->80/tcp\<close> emits the host port
  \<open>1\<close> in place of \<open>8080\<close>.
\<close>

theorem bracketed_ipv6_host_port_misread:
  "parse_ports ''[::1]:8080->80/tcp'' = [(''1'', ''80'')]"
  by (simp add: parse_ports_def parse_mapping_def split_str_def strip_def isspace_def
      isdigit_def re_search_digits_def)

text \<open>The examples of the specification, and two clauses that start with \<open>::\<close>.\<close>

lemma parse_ports_spec_examples:
  "parse_ports ''0.0.0.0:8080->80/tcp, [::]:9090->90/tcp'' = [(''8080'', ''80''), (''9090'', ''90'')]"
  "parse_ports ''5432:5432/tcp'' = [(''5432'', ''5432'')]"
  "parse_ports '':::8080->80/tcp'' = [(''8080'', ''80'')]"
  "parse_ports ''::'' = []"
  "parse_ports ''::1'' = []"
  by (simp_all add: parse_ports_def parse_mapping_def split_str_def strip_def isspace_def
      isdigit_def re_search_digits_def)

section \<open>The normalizer\<close>

subsection \<open>The classes of characters\<close>

lemma isalnum_lower_char: "isalnum c \<Longrightarrow> isalnum (lower_char c)"
  unfolding isalnum_def lower_char_def by (simp, elim disjE) simp_all

lemma isalnum_not_isspace: "isalnum c \<Longrightarrow> \<not> isspace c"
  unfolding isalnum_def isspace_def by (simp, elim disjE) simp_all

lemma isalnum_not_separator: "isalnum c \<Longrightarrow> c \<notin> set separators"
  unfolding isalnum_def separators_def by (simp, elim disjE) simp_all

lemma length_capitalize: "length (capitalize s) = length s"
  by (cases s) (simp_all add: lower_def)

subsection \<open>Stripping leaves a name without separators alone\<close>

lemma startswith_absent: "c \<in> set p \<Longrightarrow> c \<notin> set s \<Longrightarrow> \<not> startswith s p"
  by (auto simp: startswith_iff)

lemma endswith_absent: "c \<in> set p \<Longrightarrow> c \<notin> set s \<Longrightarrow> \<not> endswith s p"
  unfolding endswith_def by (rule startswith_absent [of c]) simp_all

lemma replace_absent: "c \<in> set old \<Longrightarrow> c \<notin> set s \<Longrightarrow> replace s old new = s"
proof (induction s old new rule: replace.induct)
  case (1 old new)
  then show ?case by simp
next
  case (2 x xs old new)
  from "2.prems" have "\<not> startswith (x # xs) old" by (rule startswith_absent)
  with 2 show ?case by simp
qed

lemma remove_term_absent: "separator \<notin> set s \<Longrightarrow> remove_term term s separator = s"
  by (simp add: remove_term_def Let_def replace_absent [of separator]
      startswith_absent [of separator] endswith_absent [of separator])

lemma foldl_remove_term_absent:
  "set seps \<inter> set s = {} \<Longrightarrow> foldl (remove_term term) s seps = s"
  by (induction seps) (simp_all add: remove_term_absent)

lemma foldl_terms_absent:
  "set separators \<inter> set s = {} \<Longrightarrow>
   foldl (\<lambda>cleaned term. foldl (remove_term term) cleaned separators) s ts = s"
  by (induction ts) (simp_all add: foldl_remove_term_absent)

lemma remove_generic_terms_absent:
  "set separators \<inter> set s = {} \<Longrightarrow> remove_generic_terms s = s"
  by (simp add: remove_generic_terms_def foldl_terms_absent)






subsection \<open>Splitting, joining and the fallback\<close>

lemma strip_char_absent: "c \<notin> set s \<Longrightarrow> strip_char c s = s"
proof -
  assume a: "c \<notin> set s"
  have "dropWhile (\<lambda>x. x = c) s = s" using a by (cases s) auto
  moreover have "dropWhile (\<lambda>x. x = c) (rev s) = rev s" using a by (cases "rev s") auto
  ultimately show ?thesis by (simp add: strip_char_def)
qed

lemma strip_separators_absent: "set separators \<inter> set s = {} \<Longrightarrow> strip_separators s = s"
  by (simp add: strip_separators_def separators_def strip_char_absent)

lemma re_split_from_alnum: "\<forall>c\<in>set s. isalnum c \<Longrightarrow> re_split_from cur s = [cur @ s]"
  by (induction s arbitrary: cur) simp_all


lemma split_ws_from_no_space:
  "\<forall>c\<in>set s. \<not> isspace c \<Longrightarrow> cur @ s \<noteq> [] \<Longrightarrow> split_ws_from cur s = [cur @ s]"
  by (induction s arbitrary: cur) auto






lemma title_words_single:
  "\<forall>c\<in>set s. \<not> isspace c \<Longrightarrow> s \<noteq> [] \<Longrightarrow> title_words s = capitalize s"
  by (simp add: title_words_def split_ws_def split_ws_from_no_space)




lemma cleaned_words_single:
  assumes "\<forall>c\<in>set name. isalnum c" and "name \<noteq> []"
  shows "cleaned_words name = lower name"
proof -
  have al: "\<forall>c\<in>set (lower name). isalnum c"
    using assms(1) by (simp add: lower_def isalnum_lower_char)
  then have sep: "set separators \<inter> set (lower name) = {}"
    using isalnum_not_separator by blast
  have ne: "lower name \<noteq> []" using assms(2) by (simp add: lower_def)
  have "re_split_non_alnum (strip_separators (remove_generic_terms (lower name))) = [lower name]"
    using al sep
    by (simp add: remove_generic_terms_absent strip_separators_absent re_split_non_alnum_def
        re_split_from_alnum)
  then show ?thesis using ne by (simp add: cleaned_words_def unique_words_of_def add_unique_word_def)
qed

lemma clean_container_name_single:
  assumes "\<forall>c\<in>set name. isalnum c" and "3 \<le> length name"
  shows "clean_container_name name img = capitalize (lower name)"
proof -
  from assms(2) have ne: "name \<noteq> []" by auto
  have cw: "cleaned_words name = lower name" using assms(1) ne by (rule cleaned_words_single)
  have "\<forall>c\<in>set (lower name). \<not> isspace c"
    using assms(1) by (simp add: lower_def isalnum_lower_char isalnum_not_isspace)
  moreover have "lower name \<noteq> []" using ne by (simp add: lower_def)
  ultimately have "title_words (lower name) = capitalize (lower name)"
    by (rule title_words_single)
  then show ?thesis using assms(2) ne by (simp add: clean_container_name_def cw lower_def Let_def)
qed

subsection \<open>Two names evaluated\<close>






subsection \<open>The fallback and the emptiness of the result\<close>




lemma cleaned_words_empty: "cleaned_words [] = []"
  by (simp add: cleaned_words_def lower_def remove_generic_terms_absent
      strip_separators_absent re_split_non_alnum_def unique_words_of_def add_unique_word_def)









section \<open>What the catalog contains\<close>

lemma collect_services_eq:
  "collect_services containers =
     map make_service
       (filter (\<lambda>c. \<not> is_database_container (container_name c) (container_image c)
                     \<and> container_ports c \<noteq> []) containers)"
  by (induction containers) simp_all

lemma parse_ports_8080: "parse_ports ''0.0.0.0:8080->80/tcp'' = [(''8080'', ''80'')]"
  by (simp add: parse_ports_def parse_mapping_def split_str_def strip_def isspace_def
      isdigit_def re_search_digits_def)

lemma parse_ports_5432: "parse_ports ''0.0.0.0:5432->5432/tcp'' = [(''5432'', ''5432'')]"
  by (simp add: parse_ports_def parse_mapping_def split_str_def strip_def isspace_def
      isdigit_def re_search_digits_def)

lemma parse_ports_empty: "parse_ports [] = []"
  by (simp add: parse_ports_def)

lemma is_database_container_store: "is_database_container ''store'' ''postgres:15''"
  by (simp add: is_database_container_def database_keywords_def lower_def lower_char_def)

lemma is_database_container_worker: "\<not> is_database_container ''worker'' ''myorg/worker:1.0''"
  by (simp add: is_database_container_def database_keywords_def lower_def lower_char_def)

lemma clean_container_name_webapp:
  "clean_container_name ''webapp'' ''myorg/webapp:latest'' = ''Webapp''"
proof -
  have "(\<forall>c\<in>set ''webapp''. isalnum c) \<and> 3 \<le> length ''webapp''" by (simp add: isalnum_def)
  then have "clean_container_name ''webapp'' ''myorg/webapp:latest'' = capitalize (lower ''webapp'')"
    using clean_container_name_single by blast
  then show ?thesis by (simp add: lower_def lower_char_def upper_char_def)
qed

lemma build_catalog_three_records:
  "build_catalog
     [[''Name'' \<mapsto> ''store'', ''Image'' \<mapsto> ''postgres:15'', ''Status'' \<mapsto> ''Up 3 days'',
       ''Ports'' \<mapsto> ''0.0.0.0:5432->5432/tcp''],
      [''Name'' \<mapsto> ''worker'', ''Image'' \<mapsto> ''myorg/worker:1.0'', ''Status'' \<mapsto> ''Up 3 days'',
       ''Ports'' \<mapsto> []],
      [''Name'' \<mapsto> ''webapp'', ''Image'' \<mapsto> ''myorg/webapp:latest'',
       ''Status'' \<mapsto> ''Up 2 hours'', ''Ports'' \<mapsto> ''0.0.0.0:8080->80/tcp'']]
   = [\<lparr>svc_name = ''Webapp'', svc_image = ''myorg/webapp:latest'', svc_status = ''Up 2 hours'',
       svc_ports = [(''8080'', ''80'')], svc_github_repo = None, svc_category = ''Other'',
       svc_description = []\<rparr>]"
  by (simp add: build_catalog_def sort_services_def make_service_def container_name_def
      container_image_def container_status_def container_ports_def dict_get_def
      is_database_container_store is_database_container_worker is_database_container_webapp
      parse_ports_8080 parse_ports_5432 parse_ports_empty clean_container_name_webapp)

text \<open>
  C2: the services of the catalog are, with their multiplicities, the services made from
  the containers that the classifier does not flag and whose port string parses to at
  least one mapping, one service for each such container and none for the others. Of three
  records, one with a Postgres image, one without ports and one web application with one
  mapping, the catalog holds the last one only, with one port mapping.
\<close>

theorem catalog_emits_unflagged_with_ports:
  "mset (build_catalog containers) =
     mset (map make_service
       (filter (\<lambda>c. \<not> is_database_container (container_name c) (container_image c)
                     \<and> container_ports c \<noteq> []) containers))
   \<and> length (build_catalog containers) =
     length (filter (\<lambda>c. \<not> is_database_container (container_name c) (container_image c)
                     \<and> container_ports c \<noteq> []) containers)
   \<and> build_catalog
     [[''Name'' \<mapsto> ''store'', ''Image'' \<mapsto> ''postgres:15'', ''Status'' \<mapsto> ''Up 3 days'',
       ''Ports'' \<mapsto> ''0.0.0.0:5432->5432/tcp''],
      [''Name'' \<mapsto> ''worker'', ''Image'' \<mapsto> ''myorg/worker:1.0'', ''Status'' \<mapsto> ''Up 3 days'',
       ''Ports'' \<mapsto> []],
      [''Name'' \<mapsto> ''webapp'', ''Image'' \<mapsto> ''myorg/webapp:latest'',
       ''Status'' \<mapsto> ''Up 2 hours'', ''Ports'' \<mapsto> ''0.0.0.0:8080->80/tcp'']]
   = [\<lparr>svc_name = ''Webapp'', svc_image = ''myorg/webapp:latest'', svc_status = ''Up 2 hours'',
       svc_ports = [(''8080'', ''80'')], svc_github_repo = None, svc_category = ''Other'',
       svc_description = []\<rparr>]"
proof -
  have "mset (build_catalog containers) = mset (collect_services containers)"
    by (simp add: build_catalog_def sort_services_def)
  moreover have "length (build_catalog containers) = length (collect_services containers)"
    by (simp add: build_catalog_def sort_services_def)
  ultimately show ?thesis
    by (simp only: collect_services_eq build_catalog_three_records length_map simp_thms)
qed

section \<open>The order of the catalog\<close>

text \<open>
  Strings are compared as Python compares them: lexicographically, character by
  character, by code point.

  C6: the catalog is sorted by the lower-cased display name in ascending order, and
  records with equal keys keep the order in which the loop produced them (the sort is
  stable and only permutes); services named \<open>Zeta\<close>, \<open>alpha\<close>, \<open>Beta\<close> come out
  as \<open>alpha\<close>, \<open>Beta\<close>, \<open>Zeta\<close>.
\<close>

theorem catalog_sorted_stable:
  "sorted (map (\<lambda>x. lower (svc_name x)) (build_catalog containers))
   \<and> (\<forall>k. filter (\<lambda>x. lower (svc_name x) = k) (build_catalog containers)
          = filter (\<lambda>x. lower (svc_name x) = k) (collect_services containers))
   \<and> mset (build_catalog containers) = mset (collect_services containers)
   \<and> map svc_name (sort_services
        [\<lparr>svc_name = ''Zeta'', svc_image = ''z'', svc_status = ''Up'', svc_ports = [],
           svc_github_repo = None, svc_category = ''Other'', svc_description = []\<rparr>,
         \<lparr>svc_name = ''alpha'', svc_image = ''a'', svc_status = ''Up'', svc_ports = [],
           svc_github_repo = None, svc_category = ''Other'', svc_description = []\<rparr>,
         \<lparr>svc_name = ''Beta'', svc_image = ''b'', svc_status = ''Up'', svc_ports = [],
           svc_github_repo = None, svc_category = ''Other'', svc_description = []\<rparr>])
       = [''alpha'', ''Beta'', ''Zeta'']"
proof -
  have "sorted (map (\<lambda>x. lower (svc_name x)) (build_catalog containers))"
    by (simp add: build_catalog_def sort_services_def)
  moreover have "\<forall>k. filter (\<lambda>x. lower (svc_name x) = k) (build_catalog containers)
          = filter (\<lambda>x. lower (svc_name x) = k) (collect_services containers)"
    by (simp add: build_catalog_def sort_services_def sort_key_stable)
  moreover have "mset (build_catalog containers) = mset (collect_services containers)"
    by (simp add: build_catalog_def sort_services_def)
  moreover have "map svc_name (sort_services
        [\<lparr>svc_name = ''Zeta'', svc_image = ''z'', svc_status = ''Up'', svc_ports = [],
           svc_github_repo = None, svc_category = ''Other'', svc_description = []\<rparr>,
         \<lparr>svc_name = ''alpha'', svc_image = ''a'', svc_status = ''Up'', svc_ports = [],
           svc_github_repo = None, svc_category = ''Other'', svc_description = []\<rparr>,
         \<lparr>svc_name = ''Beta'', svc_image = ''b'', svc_status = ''Up'', svc_ports = [],
           svc_github_repo = None, svc_category = ''Other'', svc_description = []\<rparr>])
       = [''alpha'', ''Beta'', ''Zeta'']"
    by (simp add: sort_services_def lower_def lower_char_def)
  ultimately show ?thesis by blast
qed

end
